theory Spec2Isabelle
  imports Main
begin

section \<open>The route table and the stream lifecycle of the REST server\<close>

text \<open>
  A shallow embedding of \<^verbatim>\<open>HandlerList\<close> and \<^verbatim>\<open>H2Protocol\<close>.

  Conventions of the embedding.
  \<^item> A Python \<^verbatim>\<open>str\<close> is represented by its UTF-8 encoding, a \<open>string\<close> (list of
    bytes). Concatenation, equality and splitting at the ASCII character \<^verbatim>\<open>?\<close> act
    alike on both, and \<^verbatim>\<open>str.encode()\<close> is the identity on the representation.
  \<^item> A handler is an opaque value of type \<open>'h\<close>; \<^verbatim>\<open>None\<close> is \<open>None :: 'h option\<close>,
    and a callable is truthy.
  \<^item> A route predicate is a total, pure function of (method, path).
  \<^item> What the session does to its collaborators (the h2 connection, the transport, the
    logger, the handlers it calls) is recorded, in order, in the field \<open>effects\<close>.
    What a called handler does in turn belongs to the handler layer and is not modelled.
  \<^item> An exception that escapes a function is the first component of its result; the
    second component is the session as the function left it.
  \<^item> The module global \<^verbatim>\<open>h2_handlers\<close> and the configuration entry
    \<^verbatim>\<open>CONFIG_HTTP["SERVER_NAME"]\<close> are parameters of the functions that read them.
\<close>

subsection \<open>Python values\<close>

type_synonym bytes = string

datatype py_error = KeyError string | IndexError

definition encode :: "string \<Rightarrow> bytes" where
  "encode s = s"

text \<open>\<^verbatim>\<open>d[k] = v\<close> on a dict kept as a list of items in insertion order: an existing
  key keeps its position and gets the new value, a new key is added at the end.\<close>

fun dict_setitem :: "('k \<times> 'v) list \<Rightarrow> 'k \<Rightarrow> 'v \<Rightarrow> ('k \<times> 'v) list" where
  "dict_setitem [] k v = [(k, v)]"
| "dict_setitem (e # d) k v =
     (if fst e = k then (fst e, v) # d else e # dict_setitem d k v)"

text \<open>\<^verbatim>\<open>d[k]\<close> and \<^verbatim>\<open>d.pop(k)\<close>: \<open>None\<close> stands for the \<^verbatim>\<open>KeyError\<close>, which the
  caller raises or catches.\<close>

definition dict_getitem :: "('k \<times> 'v) list \<Rightarrow> 'k \<Rightarrow> 'v option" where
  "dict_getitem d k = map_of d k"

definition dict_pop :: "('k \<times> 'v) list \<Rightarrow> 'k \<Rightarrow> ('v \<times> ('k \<times> 'v) list) option" where
  "dict_pop d k =
     (case map_of d k of
        None \<Rightarrow> None
      | Some v \<Rightarrow> Some (v, filter (\<lambda>e. fst e \<noteq> k) d))"

type_synonym headers = "(string \<times> string) list"

text \<open>\<^verbatim>\<open>OrderedDict(pairs)\<close>: the pairs are stored one after the other.\<close>

definition OrderedDict :: "(string \<times> string) list \<Rightarrow> headers" where
  "OrderedDict pairs = fold (\<lambda>kv d. dict_setitem d (fst kv) (snd kv)) pairs []"

text \<open>\<^verbatim>\<open>s.split(c)\<close> for a separator of one character.\<close>

fun str_split :: "string \<Rightarrow> char \<Rightarrow> string list" where
  "str_split [] c = [[]]"
| "str_split (x # xs) c =
     (if x = c then [] # str_split xs c
      else (case str_split xs c of [] \<Rightarrow> [[x]] | p # ps \<Rightarrow> (x # p) # ps))"

subsection \<open>HandlerList\<close>

type_synonym HandlerConditionT = "string \<Rightarrow> string \<Rightarrow> bool"

record 'h HandlerList =
  handlers :: "(HandlerConditionT \<times> 'h) list"
  default_handler :: "'h option"

definition HandlerList_init :: "'h HandlerList" where
  "HandlerList_init = \<lparr>handlers = [], default_handler = None\<rparr>"

definition register_handler :: "'h HandlerList \<Rightarrow> HandlerConditionT \<Rightarrow> 'h \<Rightarrow> 'h HandlerList" where
  "register_handler self condition handler =
     self\<lparr>handlers := handlers self @ [(condition, handler)]\<rparr>"

definition register_default_handler :: "'h HandlerList \<Rightarrow> 'h \<Rightarrow> 'h HandlerList" where
  "register_default_handler self handler = self\<lparr>default_handler := Some handler\<rparr>"

text \<open>The \<^verbatim>\<open>for\<close> loop of \<^verbatim>\<open>get_handler\<close>: \<open>Some\<close> is the \<^verbatim>\<open>return h[1]\<close> inside the
  loop, \<open>None\<close> is falling out of the loop.\<close>

fun get_handler_loop :: "(HandlerConditionT \<times> 'h) list \<Rightarrow> string \<Rightarrow> string \<Rightarrow> 'h option" where
  "get_handler_loop [] method path = None"
| "get_handler_loop (h # hs) method path =
     (if fst h method path then Some (snd h) else get_handler_loop hs method path)"

definition get_handler :: "'h HandlerList \<Rightarrow> string \<Rightarrow> string \<Rightarrow> 'h option" where
  "get_handler self method path =
     (case get_handler_loop (handlers self) method path of
        Some h \<Rightarrow> Some h
      | None \<Rightarrow> default_handler self)"

subsection \<open>H2Protocol\<close>

datatype header_value = HStr string | HInt nat

datatype 'h effect =
    TransportWrite
  | SendHeaders int "(string \<times> header_value) list"
  | SendData int bytes bool
  | Call3 'h int headers
  | Call4 'h int headers bytes
  | Warn string
  | AcknowledgeSettings

datatype event =
    RequestReceived int "(string \<times> string) list"
  | DataReceived int bytes
  | RemoteSettingsChanged
  | OtherEvent

record 'h H2Protocol =
  reqs_waiting_upload :: "(int \<times> headers) list"
  effects :: "'h effect list"

definition H2Protocol_init :: "'h H2Protocol" where
  "H2Protocol_init = \<lparr>reqs_waiting_upload = [], effects = []\<rparr>"

definition emit :: "'h H2Protocol \<Rightarrow> 'h effect list \<Rightarrow> 'h H2Protocol" where
  "emit self es = self\<lparr>effects := effects self @ es\<rparr>"

definition send_empty ::
  "string \<Rightarrow> 'h H2Protocol \<Rightarrow> int \<Rightarrow> string \<Rightarrow> string \<Rightarrow> bool \<Rightarrow> 'h H2Protocol" where
  "send_empty server_name self stream_id status_code status_msg status_in_body =
     (let response = (if status_in_body
                      then status_code @ '' '' @ status_msg @ [CHR 0x0A] else []);
          response_bytes = encode response;
          response_headers =
            [('':status'', HStr status_code),
             (''content-type'', HStr ''text/plain''),
             (''content-length'', HInt (length response_bytes)),
             (''server'', HStr server_name)]
      in emit self [SendHeaders stream_id response_headers,
                    SendData stream_id response_bytes True])"

definition handle_get_delete ::
  "'h HandlerList \<Rightarrow> string \<Rightarrow> 'h H2Protocol \<Rightarrow> headers \<Rightarrow> int
     \<Rightarrow> py_error option \<times> 'h H2Protocol" where
  "handle_get_delete h2_handlers server_name self hdrs stream_id =
     (case dict_getitem hdrs '':path'' of
        None \<Rightarrow> (Some (KeyError '':path''), self)
      | Some path \<Rightarrow>
          (case str_split path CHR ''?'' of
             [] \<Rightarrow> (Some IndexError, self)
           | url_path # _ \<Rightarrow>
               (case dict_getitem hdrs '':method'' of
                  None \<Rightarrow> (Some (KeyError '':method''), self)
                | Some method \<Rightarrow>
                    (case get_handler h2_handlers method url_path of
                       Some h \<Rightarrow> (None, emit self [Call3 h stream_id hdrs])
                     | None \<Rightarrow>
                         (None, send_empty server_name self stream_id
                                  ''400'' ''Bad Request'' True)))))"

definition http_handle_upload ::
  "'h HandlerList \<Rightarrow> string \<Rightarrow> 'h H2Protocol \<Rightarrow> bytes \<Rightarrow> int
     \<Rightarrow> py_error option \<times> 'h H2Protocol" where
  "http_handle_upload h2_handlers server_name self0 data stream_id =
     (case dict_pop (reqs_waiting_upload self0) stream_id of
        None \<Rightarrow> (None, self0)
      | Some (hdrs, rest) \<Rightarrow>
          (let self = self0\<lparr>reqs_waiting_upload := rest\<rparr> in
           case dict_getitem hdrs '':path'' of
             None \<Rightarrow> (Some (KeyError '':path''), self)
           | Some path \<Rightarrow>
               (case str_split path CHR ''?'' of
                  [] \<Rightarrow> (Some IndexError, self)
                | url_path # _ \<Rightarrow>
                    (case dict_getitem hdrs '':method'' of
                       None \<Rightarrow> (Some (KeyError '':method''), self)
                     | Some method \<Rightarrow>
                         (case get_handler h2_handlers method url_path of
                            Some h \<Rightarrow> (None, emit self [Call4 h stream_id hdrs data])
                          | None \<Rightarrow>
                              (None, send_empty server_name self stream_id
                                       ''400'' ''Bad Request'' True))))))"

text \<open>The body of the \<^verbatim>\<open>for event in events\<close> loop of \<^verbatim>\<open>data_received\<close>.\<close>

definition handle_event ::
  "'h HandlerList \<Rightarrow> string \<Rightarrow> 'h H2Protocol \<Rightarrow> event \<Rightarrow> py_error option \<times> 'h H2Protocol" where
  "handle_event h2_handlers server_name self ev =
     (case ev of
        RequestReceived stream_id hs \<Rightarrow>
          (let hdrs = OrderedDict hs in
           case dict_getitem hdrs '':method'' of
             None \<Rightarrow> (Some (KeyError '':method''), self)
           | Some http_method \<Rightarrow>
               if http_method = ''GET'' \<or> http_method = ''DELETE'' then
                 handle_get_delete h2_handlers server_name self hdrs stream_id
               else if http_method = ''PUT'' \<or> http_method = ''POST'' then
                 (None, self\<lparr>reqs_waiting_upload :=
                                 dict_setitem (reqs_waiting_upload self) stream_id hdrs\<rparr>)
               else
                 (None, emit self [Warn (''Unknown http method '' @ [CHR 0x22]
                                           @ http_method @ [CHR 0x22])]))
      | DataReceived stream_id data \<Rightarrow>
          http_handle_upload h2_handlers server_name self data stream_id
      | RemoteSettingsChanged \<Rightarrow> (None, emit self [AcknowledgeSettings])
      | OtherEvent \<Rightarrow> (None, self))"

fun events_loop ::
  "'h HandlerList \<Rightarrow> string \<Rightarrow> 'h H2Protocol \<Rightarrow> event list \<Rightarrow> py_error option \<times> 'h H2Protocol" where
  "events_loop h2_handlers server_name self [] = (None, self)"
| "events_loop h2_handlers server_name self (ev # evs) =
     (case handle_event h2_handlers server_name self ev of
        (Some e, self') \<Rightarrow> (Some e, self')
      | (None, self') \<Rightarrow> events_loop h2_handlers server_name self' evs)"

text \<open>\<^verbatim>\<open>data_received\<close>, given the events that \<^verbatim>\<open>conn.receive_data(data)\<close> decoded.\<close>

definition data_received ::
  "'h HandlerList \<Rightarrow> string \<Rightarrow> 'h H2Protocol \<Rightarrow> event list \<Rightarrow> py_error option \<times> 'h H2Protocol" where
  "data_received h2_handlers server_name self events =
     events_loop h2_handlers server_name (emit self [TransportWrite]) events"

text \<open>The life of one connection: the event loop calls \<^verbatim>\<open>data_received\<close> once for each
  chunk the transport reads. What the event loop does when an exception escapes
  \<^verbatim>\<open>data_received\<close> depends on the loop; \<open>keep_open\<close> says whether it goes on delivering
  chunks to the session or drops the connection.\<close>

fun serve ::
  "bool \<Rightarrow> 'h HandlerList \<Rightarrow> string \<Rightarrow> 'h H2Protocol \<Rightarrow> event list list \<Rightarrow> 'h H2Protocol" where
  "serve keep_open h2_handlers server_name self [] = self"
| "serve keep_open h2_handlers server_name self (events # chunks) =
     (case data_received h2_handlers server_name self events of
        (None, self') \<Rightarrow> serve keep_open h2_handlers server_name self' chunks
      | (Some e, self') \<Rightarrow>
          if keep_open then serve keep_open h2_handlers server_name self' chunks else self')"

subsection \<open>Observing the effects\<close>

text \<open>The routing decision an effect shows: a handler call without the headers
  it was given. Other effects are kept as they are.\<close>

fun forget_headers :: "'h effect \<Rightarrow> 'h effect" where
  "forget_headers (Call3 h stream_id hdrs) = Call3 h stream_id []"
| "forget_headers (Call4 h stream_id hdrs data) = Call4 h stream_id [] data"
| "forget_headers e = e"

text \<open>Handler calls on a stream, among the effects, and the events of a stream.\<close>

fun is_call_on :: "int \<Rightarrow> 'h effect \<Rightarrow> bool" where
  "is_call_on sid (Call3 h stream_id hdrs) = (stream_id = sid)"
| "is_call_on sid (Call4 h stream_id hdrs data) = (stream_id = sid)"
| "is_call_on sid e = False"

fun is_request_on :: "int \<Rightarrow> event \<Rightarrow> bool" where
  "is_request_on sid (RequestReceived stream_id hs) = (stream_id = sid)"
| "is_request_on sid ev = False"

fun is_upload_request_on :: "int \<Rightarrow> event \<Rightarrow> bool" where
  "is_upload_request_on sid (RequestReceived stream_id hs) =
     (stream_id = sid \<and>
      (dict_getitem (OrderedDict hs) '':method'' = Some ''PUT''
       \<or> dict_getitem (OrderedDict hs) '':method'' = Some ''POST''))"
| "is_upload_request_on sid ev = False"

fun is_data_on :: "int \<Rightarrow> event \<Rightarrow> bool" where
  "is_data_on sid (DataReceived stream_id data) = (stream_id = sid)"
| "is_data_on sid ev = False"

text \<open>The events contain a PUT or POST request-received event of the stream and, later,
  a body-data event of the stream.\<close>

fun header_then_body :: "int \<Rightarrow> event list \<Rightarrow> bool" where
  "header_then_body sid [] = False"
| "header_then_body sid (ev # evs) =
     ((is_upload_request_on sid ev \<and> list_ex (is_data_on sid) evs)
      \<or> header_then_body sid evs)"

definition calls_on :: "int \<Rightarrow> 'h H2Protocol \<Rightarrow> nat" where
  "calls_on sid self = length (filter (is_call_on sid) (effects self))"

definition pending_on :: "int \<Rightarrow> 'h H2Protocol \<Rightarrow> nat" where
  "pending_on sid self = length (filter (\<lambda>e. fst e = sid) (reqs_waiting_upload self))"

subsection \<open>Example tables and sessions\<close>

text \<open>An exact-path route for GET, then a route for every GET, then a route for POST
  under a prefix, with default handler 0: a GET of the exact path goes to the first
  route although the second matches too, and a DELETE goes to the default.\<close>

definition example_table :: "nat HandlerList" where
  "example_table =
     register_default_handler
       (register_handler
          (register_handler
             (register_handler HandlerList_init
                (\<lambda>m p. m = ''GET'' \<and> p = ''/restconf'') 1)
             (\<lambda>m p. m = ''GET'') 2)
          (\<lambda>m p. m = ''POST'' \<and> take 5 p = ''/data'') 3)
       0"

definition example_table_no_default :: "nat HandlerList" where
  "example_table_no_default =
     register_handler HandlerList_init (\<lambda>m p. m = ''GET'' \<and> p = ''/restconf'') 1"

section \<open>Route resolution\<close>

lemma get_handler_loop_first:
  "i < length hs \<Longrightarrow> fst (hs ! i) m p \<Longrightarrow> \<forall>j<i. \<not> fst (hs ! j) m p
     \<Longrightarrow> get_handler_loop hs m p = Some (snd (hs ! i))"
proof (induction hs arbitrary: i)
  case Nil
  then show ?case by simp
next
  case (Cons h hs)
  show ?case
  proof (cases i)
    case 0
    with Cons.prems show ?thesis by simp
  next
    case (Suc k)
    from Cons.prems Suc have h: "\<not> fst h m p" by auto
    from Cons.prems Suc have "\<forall>j<k. \<not> fst (hs ! j) m p" by auto
    with Cons.prems Suc Cons.IH [of k] have "get_handler_loop hs m p = Some (snd (hs ! k))"
      by simp
    with h Suc show ?thesis by simp
  qed
qed

lemma get_handler_loop_none:
  "(\<forall>e\<in>set hs. \<not> fst e m p) \<Longrightarrow> get_handler_loop hs m p = None"
  by (induction hs) auto

lemma get_handler_loop_hit:
  "get_handler_loop hs m p = Some h \<Longrightarrow> get_handler (\<lparr>handlers = hs, default_handler = d\<rparr>) m p = Some h"
  by (simp add: get_handler_def)

text \<open>
  Claim C1. \<^verbatim>\<open>get_handler\<close> returns the handler of the earliest-registered entry whose
  predicate holds of (method, path): if entry \<open>i\<close> matches and no entry before it does,
  the result is the handler of entry \<open>i\<close>, whatever the entries after \<open>i\<close> say. If no
  entry matches, the result is the default handler. Positions in the list are the order
  of registration, since \<^verbatim>\<open>register_handler\<close> appends.
\<close>

theorem get_handler_first_match:
  "(\<forall>i. i < length (handlers hl) \<and> fst (handlers hl ! i) m p
          \<and> (\<forall>j<i. \<not> fst (handlers hl ! j) m p)
        \<longrightarrow> get_handler hl m p = Some (snd (handlers hl ! i)))
   \<and> ((\<forall>e\<in>set (handlers hl). \<not> fst e m p) \<longrightarrow> get_handler hl m p = default_handler hl)
   \<and> handlers (register_handler hl c h) = handlers hl @ [(c, h)]
   \<and> default_handler (register_handler hl c h) = default_handler hl"
proof (intro conjI allI impI)
  fix i
  assume a: "i < length (handlers hl) \<and> fst (handlers hl ! i) m p
               \<and> (\<forall>j<i. \<not> fst (handlers hl ! j) m p)"
  then have "get_handler_loop (handlers hl) m p = Some (snd (handlers hl ! i))"
    using get_handler_loop_first [of i "handlers hl" m p] by blast
  then show "get_handler hl m p = Some (snd (handlers hl ! i))"
    by (simp add: get_handler_def)
next
  assume "\<forall>e\<in>set (handlers hl). \<not> fst e m p"
  then have "get_handler_loop (handlers hl) m p = None"
    by (rule get_handler_loop_none)
  then show "get_handler hl m p = default_handler hl"
    by (simp add: get_handler_def)
next
  show "handlers (register_handler hl c h) = handlers hl @ [(c, h)]"
    by (simp add: register_handler_def)
next
  show "default_handler (register_handler hl c h) = default_handler hl"
    by (simp add: register_handler_def)
qed

lemma example_table_handlers:
  "handlers example_table =
     [(\<lambda>m p. m = ''GET'' \<and> p = ''/restconf'', 1), (\<lambda>m p. m = ''GET'', 2),
      (\<lambda>m p. m = ''POST'' \<and> take 5 p = ''/data'', 3)]"
  "default_handler example_table = Some 0"
  by (simp_all add: example_table_def register_handler_def register_default_handler_def
        HandlerList_init_def)

theorem get_handler_first_match_witness:
  "get_handler example_table ''GET'' ''/restconf'' = Some 1
   \<and> get_handler example_table ''GET'' ''/other'' = Some 2
   \<and> get_handler example_table ''DELETE'' ''/restconf'' = Some 0"
proof -
  have "get_handler example_table ''GET'' ''/restconf''
          = Some (snd (handlers example_table ! 0))"
  proof -
    have "(0::nat) < length (handlers example_table)
            \<and> fst (handlers example_table ! 0) ''GET'' ''/restconf''
            \<and> (\<forall>j<0. \<not> fst (handlers example_table ! j) ''GET'' ''/restconf'')"
      by (simp add: example_table_handlers)
    then show ?thesis
      using get_handler_first_match [of example_table "''GET''" "''/restconf''"] by blast
  qed
  moreover have "get_handler example_table ''GET'' ''/other''
          = Some (snd (handlers example_table ! 1))"
  proof -
    have "(1::nat) < length (handlers example_table)
            \<and> fst (handlers example_table ! 1) ''GET'' ''/other''
            \<and> (\<forall>j<1. \<not> fst (handlers example_table ! j) ''GET'' ''/other'')"
      by (simp add: example_table_handlers)
    then show ?thesis
      using get_handler_first_match [of example_table "''GET''" "''/other''"] by blast
  qed
  moreover have "get_handler example_table ''DELETE'' ''/restconf''
          = default_handler example_table"
  proof -
    have "\<forall>e\<in>set (handlers example_table). \<not> fst e ''DELETE'' ''/restconf''"
      by (simp add: example_table_handlers)
    then show ?thesis
      using get_handler_first_match [of example_table "''DELETE''" "''/restconf''"] by blast
  qed
  ultimately show ?thesis
    by (simp add: example_table_handlers)
qed

text \<open>
  Claim C7. If no registered predicate matches (method, path) and no default handler has
  been registered, \<^verbatim>\<open>get_handler\<close> returns \<^verbatim>\<open>None\<close>; a fresh table has no default and
  \<^verbatim>\<open>register_handler\<close> does not set one. \<^verbatim>\<open>register_default_handler\<close> overwrites
  whatever default was there: registering \<open>h1\<close> and then \<open>h2\<close> leaves the table that
  registering \<open>h2\<close> alone gives, and an unmatched request then resolves to \<open>h2\<close>.
\<close>

theorem get_handler_no_default:
  "((\<forall>e\<in>set (handlers hl). \<not> fst e m p) \<and> default_handler hl = None
       \<longrightarrow> get_handler hl m p = None)
   \<and> default_handler (HandlerList_init :: 'h HandlerList) = None
   \<and> default_handler (register_handler hl c h) = default_handler hl
   \<and> default_handler (register_default_handler hl h2) = Some h2
   \<and> handlers (register_default_handler hl h2) = handlers hl
   \<and> register_default_handler (register_default_handler hl h1) h2
       = register_default_handler hl h2
   \<and> ((\<forall>e\<in>set (handlers hl). \<not> fst e m p)
       \<longrightarrow> get_handler (register_default_handler (register_default_handler hl h1) h2) m p
             = Some h2)"
proof (intro conjI impI)
  assume "(\<forall>e\<in>set (handlers hl). \<not> fst e m p) \<and> default_handler hl = None"
  then show "get_handler hl m p = None"
    by (simp add: get_handler_def get_handler_loop_none)
next
  assume "\<forall>e\<in>set (handlers hl). \<not> fst e m p"
  then have "get_handler_loop (handlers hl) m p = None"
    by (rule get_handler_loop_none)
  then show "get_handler (register_default_handler (register_default_handler hl h1) h2) m p
               = Some h2"
    by (simp add: get_handler_def register_default_handler_def)
qed (simp_all add: HandlerList_init_def register_handler_def register_default_handler_def)

theorem get_handler_no_default_witness:
  "get_handler example_table_no_default ''GET'' ''/unknown/path'' = None
   \<and> get_handler (register_default_handler
                    (register_default_handler example_table_no_default 7) 8)
        ''GET'' ''/unknown/path'' = Some 8"
proof -
  have h: "handlers example_table_no_default = [(\<lambda>m p. m = ''GET'' \<and> p = ''/restconf'', 1)]"
    and d: "default_handler example_table_no_default = None"
    by (simp_all add: example_table_no_default_def register_handler_def HandlerList_init_def)
  have pre: "\<forall>e\<in>set (handlers example_table_no_default). \<not> fst e ''GET'' ''/unknown/path''"
    by (simp add: h)
  from pre d
    get_handler_no_default [of example_table_no_default "''GET''" "''/unknown/path''"]
  show ?thesis by blast
qed

section \<open>Dictionaries and splitting\<close>

lemma map_of_dict_setitem:
  "map_of (dict_setitem d k v) = (map_of d)(k \<mapsto> v)"
  by (induction d) (auto simp: fun_eq_iff)

lemma dict_getitem_setitem:
  "dict_getitem (dict_setitem d k v) k' = (if k' = k then Some v else dict_getitem d k')"
  by (simp add: dict_getitem_def map_of_dict_setitem)

lemma dict_setitem_twice:
  "dict_setitem (dict_setitem d k v) k v' = dict_setitem d k v'"
  by (induction d) auto

lemma keys_dict_setitem:
  "set (map fst (dict_setitem d k v)) = insert k (set (map fst d))"
  by (induction d) auto

lemma distinct_dict_setitem:
  "distinct (map fst d) \<Longrightarrow> distinct (map fst (dict_setitem d k v))"
proof (induction d)
  case Nil
  then show ?case by simp
next
  case (Cons e d)
  show ?case
  proof (cases "fst e = k")
    case True
    with Cons.prems show ?thesis by simp
  next
    case False
    from Cons.prems have "fst e \<notin> set (map fst d)" and "distinct (map fst d)"
      by simp_all
    with False Cons.IH have "fst e \<notin> set (map fst (dict_setitem d k v))"
      and "distinct (map fst (dict_setitem d k v))"
      by (simp_all only: keys_dict_setitem) auto
    with False show ?thesis by simp
  qed
qed

lemma filter_dict_setitem:
  "filter (\<lambda>e. fst e \<noteq> k) (dict_setitem d k v) = filter (\<lambda>e. fst e \<noteq> k) d"
  by (induction d) auto

lemma map_of_filter_key:
  "map_of (filter (\<lambda>e. fst e \<noteq> k) d) k' = (if k' = k then None else map_of d k')"
  by (induction d) auto

lemma dict_pop_setitem:
  "dict_pop (dict_setitem d k v) k = Some (v, filter (\<lambda>e. fst e \<noteq> k) d)"
  by (simp add: dict_pop_def map_of_dict_setitem filter_dict_setitem)

lemma dict_pop_None:
  "dict_pop d k = None \<longleftrightarrow> dict_getitem d k = None"
  by (simp add: dict_pop_def dict_getitem_def split: option.splits)

lemma dict_pop_Some:
  "dict_pop d k = Some (v, rest) \<Longrightarrow>
     dict_getitem d k = Some v \<and> rest = filter (\<lambda>e. fst e \<noteq> k) d \<and> dict_getitem rest k = None"
  by (auto simp: dict_pop_def dict_getitem_def map_of_filter_key split: option.splits)

lemma distinct_keys_filter:
  "distinct (map fst d) \<Longrightarrow> distinct (map fst (filter P d))"
  by (induction d) auto

lemma str_split_first:
  "\<exists>ps. str_split s c = takeWhile (\<lambda>x. x \<noteq> c) s # ps"
  by (induction s) (auto split: list.splits)

lemma str_split_case:
  "(case str_split s c of [] \<Rightarrow> a | p # ps \<Rightarrow> f p) = f (takeWhile (\<lambda>x. x \<noteq> c) s)"
  using str_split_first [of s c] by auto

lemma takeWhile_query:
  "takeWhile (\<lambda>x. x \<noteq> c) (p @ c # q) = takeWhile (\<lambda>x. x \<noteq> c) p"
  by (induction p) auto

section \<open>One event at a time\<close>

lemma handle_get_delete_wf:
  assumes "dict_getitem hdrs '':path'' = Some path"
    and "dict_getitem hdrs '':method'' = Some method"
  shows "handle_get_delete tbl srv self hdrs sid =
    (None, case get_handler tbl method (takeWhile (\<lambda>x. x \<noteq> CHR ''?'') path) of
             Some h \<Rightarrow> emit self [Call3 h sid hdrs]
           | None \<Rightarrow> send_empty srv self sid ''400'' ''Bad Request'' True)"
  using assms by (simp add: handle_get_delete_def str_split_case split: option.splits)

lemma http_handle_upload_wf:
  assumes "dict_pop (reqs_waiting_upload self) sid = Some (hdrs, rest)"
    and "dict_getitem hdrs '':path'' = Some path"
    and "dict_getitem hdrs '':method'' = Some method"
  shows "http_handle_upload tbl srv self data sid =
    (None, case get_handler tbl method (takeWhile (\<lambda>x. x \<noteq> CHR ''?'') path) of
             Some h \<Rightarrow> emit (self\<lparr>reqs_waiting_upload := rest\<rparr>) [Call4 h sid hdrs data]
           | None \<Rightarrow> send_empty srv (self\<lparr>reqs_waiting_upload := rest\<rparr>) sid
                       ''400'' ''Bad Request'' True)"
  using assms by (simp add: http_handle_upload_def str_split_case split: option.splits)

lemma http_handle_upload_orphan:
  "dict_getitem (reqs_waiting_upload self) sid = None \<Longrightarrow>
     http_handle_upload tbl srv self data sid = (None, self)"
  by (simp add: http_handle_upload_def dict_pop_None [symmetric])

lemma send_empty_400:
  "send_empty srv self sid ''400'' ''Bad Request'' True =
     self\<lparr>effects := effects self @
       [SendHeaders sid [('':status'', HStr ''400''), (''content-type'', HStr ''text/plain''),
                         (''content-length'', HInt 16), (''server'', HStr srv)],
        SendData sid (''400 Bad Request'' @ [CHR 0x0A]) True]\<rparr>"
  by (simp add: send_empty_def emit_def encode_def)

lemma events_loop_append:
  "events_loop tbl srv self (es1 @ es2) =
     (case events_loop tbl srv self es1 of
        (Some e, s1) \<Rightarrow> (Some e, s1)
      | (None, s1) \<Rightarrow> events_loop tbl srv s1 es2)"
  by (induction es1 arbitrary: self) (auto split: prod.splits option.splits)

lemma handle_event_get_delete:
  assumes "dict_getitem (OrderedDict hs) '':method'' = Some m"
    and "m = ''GET'' \<or> m = ''DELETE''"
  shows "handle_event tbl srv self (RequestReceived sid hs) =
           handle_get_delete tbl srv self (OrderedDict hs) sid"
  using assms by (auto simp: handle_event_def)

lemma handle_event_put_post:
  assumes "dict_getitem (OrderedDict hs) '':method'' = Some m"
    and "m = ''PUT'' \<or> m = ''POST''"
  shows "handle_event tbl srv self (RequestReceived sid hs) =
           (None, self\<lparr>reqs_waiting_upload :=
                          dict_setitem (reqs_waiting_upload self) sid (OrderedDict hs)\<rparr>)"
  using assms by (auto simp: handle_event_def)

text \<open>
  Claim C3. A request-received event whose method is GET or DELETE (and which carries
  the path pseudo-header, as request-received events do) is routed while the event is
  handled: if the table resolves (method, path without query string) to a handler, the
  only effect of the event is one call of that handler with the stream id and the
  headers, nothing is stored for a later body event, and no exception is raised; if the
  table resolves to nothing, the only effect is the response 400 on that stream, and no
  handler is called.
\<close>

theorem get_delete_dispatched_on_headers:
  assumes "dict_getitem (OrderedDict hs) '':method'' = Some m"
    and "m = ''GET'' \<or> m = ''DELETE''"
    and "dict_getitem (OrderedDict hs) '':path'' = Some path"
  shows
    "(\<forall>h. get_handler tbl m (takeWhile (\<lambda>x. x \<noteq> CHR ''?'') path) = Some h \<longrightarrow>
        handle_event tbl srv self (RequestReceived sid hs) =
          (None, self\<lparr>effects := effects self @ [Call3 h sid (OrderedDict hs)]\<rparr>))
     \<and> (get_handler tbl m (takeWhile (\<lambda>x. x \<noteq> CHR ''?'') path) = None \<longrightarrow>
        handle_event tbl srv self (RequestReceived sid hs) =
          (None, self\<lparr>effects := effects self @
             [SendHeaders sid [('':status'', HStr ''400''),
                               (''content-type'', HStr ''text/plain''),
                               (''content-length'', HInt 16), (''server'', HStr srv)],
              SendData sid (''400 Bad Request'' @ [CHR 0x0A]) True]\<rparr>))"
  using assms
  by (simp add: handle_event_get_delete [OF assms(1,2)]
        handle_get_delete_wf [OF assms(3,1)] send_empty_400 emit_def)

theorem get_delete_dispatched_on_headers_witness:
  "handle_event example_table ''jetconf'' H2Protocol_init
     (RequestReceived 1 [('':method'', ''GET''), ('':path'', ''/restconf?depth=1'')])
     = (None, \<lparr>reqs_waiting_upload = [],
               effects = [Call3 1 1 [('':method'', ''GET''),
                                     ('':path'', ''/restconf?depth=1'')]]\<rparr>)
   \<and> handle_event example_table_no_default ''jetconf'' H2Protocol_init
     (RequestReceived 3 [('':method'', ''DELETE''), ('':path'', ''/unknown/path'')])
     = (None, \<lparr>reqs_waiting_upload = [],
               effects = [SendHeaders 3 [('':status'', HStr ''400''),
                                         (''content-type'', HStr ''text/plain''),
                                         (''content-length'', HInt 16),
                                         (''server'', HStr ''jetconf'')],
                          SendData 3 (''400 Bad Request'' @ [CHR 0x0A]) True]\<rparr>)"
proof -
  let ?hs1 = "[('':method'', ''GET''), ('':path'', ''/restconf?depth=1'')]"
  let ?hs2 = "[('':method'', ''DELETE''), ('':path'', ''/unknown/path'')]"
  have od1: "OrderedDict ?hs1 = ?hs1" and od2: "OrderedDict ?hs2 = ?hs2"
    by (simp_all add: OrderedDict_def)
  have m1: "dict_getitem (OrderedDict ?hs1) '':method'' = Some ''GET''"
    and p1: "dict_getitem (OrderedDict ?hs1) '':path'' = Some ''/restconf?depth=1''"
    and m2: "dict_getitem (OrderedDict ?hs2) '':method'' = Some ''DELETE''"
    and p2: "dict_getitem (OrderedDict ?hs2) '':path'' = Some ''/unknown/path''"
    by (simp_all add: od1 od2 dict_getitem_def)
  have g1: "get_handler example_table ''GET''
              (takeWhile (\<lambda>x. x \<noteq> CHR ''?'') ''/restconf?depth=1'') = Some 1"
    by (simp add: get_handler_def example_table_handlers)
  have g2: "get_handler example_table_no_default ''DELETE''
              (takeWhile (\<lambda>x. x \<noteq> CHR ''?'') ''/unknown/path'') = None"
    by (simp add: get_handler_def example_table_no_default_def register_handler_def
          HandlerList_init_def)
  from g1 get_delete_dispatched_on_headers [OF m1 _ p1, of example_table "''jetconf''"
      H2Protocol_init 1]
  have "handle_event example_table ''jetconf'' H2Protocol_init (RequestReceived 1 ?hs1)
     = (None, H2Protocol_init\<lparr>effects := effects H2Protocol_init
                                   @ [Call3 1 1 (OrderedDict ?hs1)]\<rparr>)"
    by blast
  moreover
  from g2 get_delete_dispatched_on_headers [OF m2 _ p2, of example_table_no_default
      "''jetconf''" H2Protocol_init 3]
  have "handle_event example_table_no_default ''jetconf'' H2Protocol_init
          (RequestReceived 3 ?hs2)
     = (None, H2Protocol_init\<lparr>effects := effects H2Protocol_init @
             [SendHeaders 3 [('':status'', HStr ''400''),
                               (''content-type'', HStr ''text/plain''),
                               (''content-length'', HInt 16), (''server'', HStr ''jetconf'')],
              SendData 3 (''400 Bad Request'' @ [CHR 0x0A]) True]\<rparr>)"
    by blast
  ultimately show ?thesis
    by (simp add: od1 od2 H2Protocol_init_def)
qed

lemma http_handle_upload_consumes:
  "dict_getitem (reqs_waiting_upload (snd (http_handle_upload tbl srv self data sid))) sid
     = None"
proof (cases "dict_pop (reqs_waiting_upload self) sid")
  case None
  then have "dict_getitem (reqs_waiting_upload self) sid = None"
    by (simp add: dict_pop_None)
  with None show ?thesis
    by (simp add: http_handle_upload_def)
next
  case (Some a)
  obtain hdrs rest where a: "a = (hdrs, rest)" by (cases a)
  from Some a have "dict_pop (reqs_waiting_upload self) sid = Some (hdrs, rest)"
    by simp
  from dict_pop_Some [OF this] have "dict_getitem rest sid = None"
    by blast
  with Some a show ?thesis
    by (simp add: http_handle_upload_def Let_def send_empty_def emit_def
          split: option.splits list.splits)
qed

text \<open>
  Claim C5. A body-data event for a stream id that has no stored Pending Request changes
  nothing: the result is the session as it was (same Pending Request map, no effect
  recorded, so no handler call and no response) and no exception. This is so for a
  stream that never was buffered (a fresh session), and for a second body-data event
  after the one that consumed the Pending Request.
\<close>

theorem orphaned_body_is_noop:
  "(dict_getitem (reqs_waiting_upload self) sid = None \<longrightarrow>
      http_handle_upload tbl srv self data sid = (None, self)
      \<and> handle_event tbl srv self (DataReceived sid data) = (None, self))
   \<and> handle_event tbl srv H2Protocol_init (DataReceived sid data) = (None, H2Protocol_init)
   \<and> handle_event tbl srv (snd (handle_event tbl srv self (DataReceived sid data)))
        (DataReceived sid data')
       = (None, snd (handle_event tbl srv self (DataReceived sid data)))"
proof (intro conjI impI)
  assume a: "dict_getitem (reqs_waiting_upload self) sid = None"
  then show "http_handle_upload tbl srv self data sid = (None, self)"
    by (rule http_handle_upload_orphan)
  with a show "handle_event tbl srv self (DataReceived sid data) = (None, self)"
    by (simp add: handle_event_def)
next
  have "dict_getitem (reqs_waiting_upload (H2Protocol_init :: 'a H2Protocol)) sid = None"
    by (simp add: H2Protocol_init_def dict_getitem_def)
  then show "handle_event tbl srv H2Protocol_init (DataReceived sid data)
               = (None, H2Protocol_init)"
    by (simp add: handle_event_def http_handle_upload_orphan)
next
  let ?s1 = "snd (handle_event tbl srv self (DataReceived sid data))"
  have "dict_getitem (reqs_waiting_upload ?s1) sid = None"
    by (simp add: handle_event_def http_handle_upload_consumes)
  then show "handle_event tbl srv ?s1 (DataReceived sid data') = (None, ?s1)"
    by (simp add: handle_event_def http_handle_upload_orphan)
qed

theorem orphaned_body_is_noop_witness:
  "http_handle_upload example_table ''jetconf''
     \<lparr>reqs_waiting_upload = [(1, [('':method'', ''POST''), ('':path'', ''/data/x'')])],
      effects = [TransportWrite]\<rparr> ''{}'' 3
   = (None, \<lparr>reqs_waiting_upload = [(1, [('':method'', ''POST''), ('':path'', ''/data/x'')])],
             effects = [TransportWrite]\<rparr>)"
proof -
  let ?s = "\<lparr>reqs_waiting_upload = [(1::int, [('':method'', ''POST''), ('':path'', ''/data/x'')])],
             effects = [TransportWrite :: nat effect]\<rparr>"
  have "dict_getitem (reqs_waiting_upload ?s) 3 = None"
    by (simp add: dict_getitem_def)
  with orphaned_body_is_noop [of ?s 3 example_table "''jetconf''" "''{}''"]
  show ?thesis by blast
qed

text \<open>
  Claim C6. \<^verbatim>\<open>send_empty\<close> sends, on the given stream, the four headers
  \<^verbatim>\<open>:status\<close> (the code), \<^verbatim>\<open>content-type\<close> (text/plain), \<^verbatim>\<open>content-length\<close> (the
  length in bytes of the body) and \<^verbatim>\<open>server\<close> (the configured name), and then the body
  with the end-of-stream flag: the code, a space, the message and a newline when the status
  goes in the body, the empty body otherwise. A request that resolves to no handler, read
  or write, gets status 400 and the body \<^verbatim>\<open>400 Bad Request\<close> with a newline.
\<close>

theorem send_empty_response:
  "send_empty srv self sid code msg True =
     self\<lparr>effects := effects self @
       [SendHeaders sid [('':status'', HStr code), (''content-type'', HStr ''text/plain''),
                         (''content-length'', HInt (length (code @ '' '' @ msg @ [CHR 0x0A]))),
                         (''server'', HStr srv)],
        SendData sid (code @ '' '' @ msg @ [CHR 0x0A]) True]\<rparr>
   \<and> send_empty srv self sid code msg False =
     self\<lparr>effects := effects self @
       [SendHeaders sid [('':status'', HStr code), (''content-type'', HStr ''text/plain''),
                         (''content-length'', HInt 0), (''server'', HStr srv)],
        SendData sid [] True]\<rparr>
   \<and> (dict_getitem hdrs '':path'' = Some path \<and> dict_getitem hdrs '':method'' = Some m
        \<and> get_handler tbl m (takeWhile (\<lambda>x. x \<noteq> CHR ''?'') path) = None \<longrightarrow>
      handle_get_delete tbl srv self hdrs sid =
        (None, self\<lparr>effects := effects self @
           [SendHeaders sid [('':status'', HStr ''400''),
                             (''content-type'', HStr ''text/plain''),
                             (''content-length'', HInt 16), (''server'', HStr srv)],
            SendData sid (''400 Bad Request'' @ [CHR 0x0A]) True]\<rparr>))
   \<and> (dict_pop (reqs_waiting_upload self) sid = Some (hdrs, rest)
        \<and> dict_getitem hdrs '':path'' = Some path \<and> dict_getitem hdrs '':method'' = Some m
        \<and> get_handler tbl m (takeWhile (\<lambda>x. x \<noteq> CHR ''?'') path) = None \<longrightarrow>
      http_handle_upload tbl srv self data sid =
        (None, self\<lparr>reqs_waiting_upload := rest, effects := effects self @
           [SendHeaders sid [('':status'', HStr ''400''),
                             (''content-type'', HStr ''text/plain''),
                             (''content-length'', HInt 16), (''server'', HStr srv)],
            SendData sid (''400 Bad Request'' @ [CHR 0x0A]) True]\<rparr>))"
proof (intro conjI impI)
  show "send_empty srv self sid code msg True =
     self\<lparr>effects := effects self @
       [SendHeaders sid [('':status'', HStr code), (''content-type'', HStr ''text/plain''),
                         (''content-length'', HInt (length (code @ '' '' @ msg @ [CHR 0x0A]))),
                         (''server'', HStr srv)],
        SendData sid (code @ '' '' @ msg @ [CHR 0x0A]) True]\<rparr>"
    by (simp add: send_empty_def emit_def encode_def)
next
  show "send_empty srv self sid code msg False =
     self\<lparr>effects := effects self @
       [SendHeaders sid [('':status'', HStr code), (''content-type'', HStr ''text/plain''),
                         (''content-length'', HInt 0), (''server'', HStr srv)],
        SendData sid [] True]\<rparr>"
    by (simp add: send_empty_def emit_def encode_def)
next
  assume a: "dict_getitem hdrs '':path'' = Some path \<and> dict_getitem hdrs '':method'' = Some m
        \<and> get_handler tbl m (takeWhile (\<lambda>x. x \<noteq> CHR ''?'') path) = None"
  then have "handle_get_delete tbl srv self hdrs sid
               = (None, send_empty srv self sid ''400'' ''Bad Request'' True)"
    using handle_get_delete_wf [of hdrs path m tbl srv self sid] by simp
  then show "handle_get_delete tbl srv self hdrs sid =
        (None, self\<lparr>effects := effects self @
           [SendHeaders sid [('':status'', HStr ''400''),
                             (''content-type'', HStr ''text/plain''),
                             (''content-length'', HInt 16), (''server'', HStr srv)],
            SendData sid (''400 Bad Request'' @ [CHR 0x0A]) True]\<rparr>)"
    by (simp only: send_empty_400)
next
  assume a: "dict_pop (reqs_waiting_upload self) sid = Some (hdrs, rest)
        \<and> dict_getitem hdrs '':path'' = Some path \<and> dict_getitem hdrs '':method'' = Some m
        \<and> get_handler tbl m (takeWhile (\<lambda>x. x \<noteq> CHR ''?'') path) = None"
  then have "http_handle_upload tbl srv self data sid
               = (None, send_empty srv (self\<lparr>reqs_waiting_upload := rest\<rparr>) sid
                          ''400'' ''Bad Request'' True)"
    using http_handle_upload_wf [of self sid hdrs rest path m tbl srv data] by simp
  then show "http_handle_upload tbl srv self data sid =
        (None, self\<lparr>reqs_waiting_upload := rest, effects := effects self @
           [SendHeaders sid [('':status'', HStr ''400''),
                             (''content-type'', HStr ''text/plain''),
                             (''content-length'', HInt 16), (''server'', HStr srv)],
            SendData sid (''400 Bad Request'' @ [CHR 0x0A]) True]\<rparr>)"
    by (simp add: send_empty_400)
qed

theorem send_empty_response_witness:
  "handle_get_delete example_table_no_default ''jetconf'' H2Protocol_init
     [('':method'', ''GET''), ('':path'', ''/unknown/path'')] 5
   = (None, \<lparr>reqs_waiting_upload = [],
             effects = [SendHeaders 5 [('':status'', HStr ''400''),
                                       (''content-type'', HStr ''text/plain''),
                                       (''content-length'', HInt 16),
                                       (''server'', HStr ''jetconf'')],
                        SendData 5 (''400 Bad Request'' @ [CHR 0x0A]) True]\<rparr>)"
proof -
  let ?hdrs = "[('':method'', ''GET''), ('':path'', ''/unknown/path'')]"
  have "dict_getitem ?hdrs '':path'' = Some ''/unknown/path''
        \<and> dict_getitem ?hdrs '':method'' = Some ''GET''
        \<and> get_handler example_table_no_default ''GET''
             (takeWhile (\<lambda>x. x \<noteq> CHR ''?'') ''/unknown/path'') = None"
    by (simp add: dict_getitem_def get_handler_def example_table_no_default_def
          register_handler_def HandlerList_init_def)
  with send_empty_response [of "''jetconf''" H2Protocol_init 5 _ _ ?hdrs "''/unknown/path''"
      "''GET''" example_table_no_default]
  have "handle_get_delete example_table_no_default ''jetconf'' H2Protocol_init ?hdrs 5 =
        (None, H2Protocol_init\<lparr>effects := effects H2Protocol_init @
           [SendHeaders 5 [('':status'', HStr ''400''),
                             (''content-type'', HStr ''text/plain''),
                             (''content-length'', HInt 16), (''server'', HStr ''jetconf'')],
            SendData 5 (''400 Bad Request'' @ [CHR 0x0A]) True]\<rparr>)"
    by blast
  then show ?thesis by (simp add: H2Protocol_init_def)
qed

text \<open>
  Claim C8. A request-received event whose method is none of GET, DELETE, PUT and POST
  has one effect only, the warning that names the method: the result is the session as
  it was with that log record added. The Pending Request map is the same, no handler is
  called, nothing is sent on the stream, and no exception is raised.
\<close>

theorem unknown_method_only_logged:
  assumes "dict_getitem (OrderedDict hs) '':method'' = Some m"
    and "m \<noteq> ''GET''" and "m \<noteq> ''DELETE''" and "m \<noteq> ''PUT''" and "m \<noteq> ''POST''"
  shows "handle_event tbl srv self (RequestReceived sid hs) =
           (None, self\<lparr>effects := effects self @
                     [Warn (''Unknown http method '' @ [CHR 0x22] @ m @ [CHR 0x22])]\<rparr>)"
  using assms by (simp add: handle_event_def emit_def)

theorem unknown_method_only_logged_witness:
  "handle_event example_table ''jetconf''
     \<lparr>reqs_waiting_upload = [(1, [('':method'', ''PUT''), ('':path'', ''/data/x'')])],
      effects = []\<rparr>
     (RequestReceived 3 [('':method'', ''PATCH''), ('':path'', ''/data/x'')])
   = (None,
      \<lparr>reqs_waiting_upload = [(1, [('':method'', ''PUT''), ('':path'', ''/data/x'')])],
       effects = [Warn (''Unknown http method '' @ [CHR 0x22] @ ''PATCH'' @ [CHR 0x22])]\<rparr>)"
proof -
  have m: "dict_getitem (OrderedDict [('':method'', ''PATCH''), ('':path'', ''/data/x'')])
             '':method'' = Some ''PATCH''"
    by (simp add: OrderedDict_def dict_getitem_def)
  have ne: "''PATCH'' \<noteq> ''GET''" "''PATCH'' \<noteq> ''DELETE''" "''PATCH'' \<noteq> ''PUT''"
    "''PATCH'' \<noteq> ''POST''"
    by simp_all
  from unknown_method_only_logged [OF m ne, of example_table "''jetconf''" _ 3]
  show ?thesis by simp
qed

text \<open>
  Claim C9. The pseudo-headers are looked up with \<^verbatim>\<open>headers[...]\<close> outside any
  \<^verbatim>\<open>try\<close>. A request-received event without \<^verbatim>\<open>:method\<close> raises \<^verbatim>\<open>KeyError\<close>
  and leaves the session as it was. \<^verbatim>\<open>handle_get_delete\<close>, and a GET or DELETE event,
  without \<^verbatim>\<open>:path\<close> raise \<^verbatim>\<open>KeyError\<close> and leave the session as it was.
  \<^verbatim>\<open>http_handle_upload\<close> on stored headers without \<^verbatim>\<open>:path\<close> raises \<^verbatim>\<open>KeyError\<close>
  after it has removed the Pending Request, with nothing sent and no handler called. In
  each case nothing catches the exception: it leaves \<^verbatim>\<open>data_received\<close>, and the events
  after the offending one are not handled.
\<close>

theorem missing_pseudo_header_raises:
  "(dict_getitem (OrderedDict hs) '':method'' = None \<longrightarrow>
      handle_event tbl srv self (RequestReceived sid hs) = (Some (KeyError '':method''), self))
   \<and> (dict_getitem hdrs '':path'' = None \<longrightarrow>
      handle_get_delete tbl srv self hdrs sid = (Some (KeyError '':path''), self))
   \<and> (dict_getitem (OrderedDict hs) '':method'' = Some m \<and> (m = ''GET'' \<or> m = ''DELETE'')
        \<and> dict_getitem (OrderedDict hs) '':path'' = None \<longrightarrow>
      handle_event tbl srv self (RequestReceived sid hs) = (Some (KeyError '':path''), self))
   \<and> (dict_pop (reqs_waiting_upload self) sid = Some (hdrs, rest)
        \<and> dict_getitem hdrs '':path'' = None \<longrightarrow>
      http_handle_upload tbl srv self data sid
        = (Some (KeyError '':path''), self\<lparr>reqs_waiting_upload := rest\<rparr>)
      \<and> handle_event tbl srv self (DataReceived sid data)
        = (Some (KeyError '':path''), self\<lparr>reqs_waiting_upload := rest\<rparr>))
   \<and> (data_received tbl srv self evs1 = (None, self1)
        \<and> handle_event tbl srv self1 ev = (Some e, self2) \<longrightarrow>
      data_received tbl srv self (evs1 @ ev # evs2) = (Some e, self2))"
proof (intro conjI impI)
  assume "dict_getitem (OrderedDict hs) '':method'' = None"
  then show "handle_event tbl srv self (RequestReceived sid hs)
               = (Some (KeyError '':method''), self)"
    by (simp add: handle_event_def)
next
  assume "dict_getitem hdrs '':path'' = None"
  then show "handle_get_delete tbl srv self hdrs sid = (Some (KeyError '':path''), self)"
    by (simp add: handle_get_delete_def)
next
  assume a: "dict_getitem (OrderedDict hs) '':method'' = Some m
        \<and> (m = ''GET'' \<or> m = ''DELETE'')
        \<and> dict_getitem (OrderedDict hs) '':path'' = None"
  then have "handle_event tbl srv self (RequestReceived sid hs)
               = handle_get_delete tbl srv self (OrderedDict hs) sid"
    using handle_event_get_delete [of hs m tbl srv self sid] by blast
  with a show "handle_event tbl srv self (RequestReceived sid hs)
                 = (Some (KeyError '':path''), self)"
    by (simp add: handle_get_delete_def)
next
  assume a: "dict_pop (reqs_waiting_upload self) sid = Some (hdrs, rest)
        \<and> dict_getitem hdrs '':path'' = None"
  then show u: "http_handle_upload tbl srv self data sid
        = (Some (KeyError '':path''), self\<lparr>reqs_waiting_upload := rest\<rparr>)"
    by (simp add: http_handle_upload_def)
  then show "handle_event tbl srv self (DataReceived sid data)
        = (Some (KeyError '':path''), self\<lparr>reqs_waiting_upload := rest\<rparr>)"
    by (simp add: handle_event_def)
next
  assume "data_received tbl srv self evs1 = (None, self1)
        \<and> handle_event tbl srv self1 ev = (Some e, self2)"
  then show "data_received tbl srv self (evs1 @ ev # evs2) = (Some e, self2)"
    by (simp add: data_received_def events_loop_append)
qed

theorem missing_pseudo_header_raises_witness:
  "handle_event example_table ''jetconf'' H2Protocol_init
     (RequestReceived 1 [('':path'', ''/restconf'')])
     = (Some (KeyError '':method''), H2Protocol_init)
   \<and> handle_event example_table ''jetconf'' H2Protocol_init
     (RequestReceived 1 [('':method'', ''GET'')])
     = (Some (KeyError '':path''), H2Protocol_init)
   \<and> http_handle_upload example_table ''jetconf''
       \<lparr>reqs_waiting_upload = [(1, [('':method'', ''PUT'')])], effects = []\<rparr> ''{}'' 1
     = (Some (KeyError '':path''), \<lparr>reqs_waiting_upload = [], effects = []\<rparr>)
   \<and> data_received example_table ''jetconf'' H2Protocol_init
       [RemoteSettingsChanged, RequestReceived 1 [('':path'', ''/restconf'')],
        RequestReceived 3 [('':method'', ''GET''), ('':path'', ''/restconf'')]]
     = (Some (KeyError '':method''),
        \<lparr>reqs_waiting_upload = [], effects = [TransportWrite, AcknowledgeSettings]\<rparr>)"
proof -
  let ?s = "\<lparr>reqs_waiting_upload = [(1::int, [('':method'', ''PUT'')])],
             effects = [] :: nat effect list\<rparr>"
  let ?s1 = "\<lparr>reqs_waiting_upload = [], effects = [TransportWrite, AcknowledgeSettings]\<rparr>
               :: nat H2Protocol"
  note R = missing_pseudo_header_raises
  have "dict_getitem (OrderedDict [('':path'', ''/restconf'')]) '':method'' = None"
    by (simp add: OrderedDict_def dict_getitem_def)
  with R [of "[('':path'', ''/restconf'')]" example_table "''jetconf''" H2Protocol_init 1]
  have c1: "handle_event example_table ''jetconf'' H2Protocol_init
     (RequestReceived 1 [('':path'', ''/restconf'')])
     = (Some (KeyError '':method''), H2Protocol_init)"
    by blast
  have "dict_getitem (OrderedDict [('':method'', ''GET'')]) '':method'' = Some ''GET''
        \<and> (''GET'' = ''GET'' \<or> ''GET'' = ''DELETE'')
        \<and> dict_getitem (OrderedDict [('':method'', ''GET'')]) '':path'' = None"
    by (simp add: OrderedDict_def dict_getitem_def)
  with R [of "[('':method'', ''GET'')]" example_table "''jetconf''" H2Protocol_init 1 _
      "''GET''"]
  have c2: "handle_event example_table ''jetconf'' H2Protocol_init
     (RequestReceived 1 [('':method'', ''GET'')])
     = (Some (KeyError '':path''), H2Protocol_init)"
    by blast
  have "dict_pop (reqs_waiting_upload ?s) 1 = Some ([('':method'', ''PUT'')], [])
        \<and> dict_getitem [('':method'', ''PUT'')] '':path'' = None"
    by (simp add: dict_pop_def dict_getitem_def)
  with R [of _ example_table "''jetconf''" ?s 1 "[('':method'', ''PUT'')]" _ "[]" "''{}''"]
  have "http_handle_upload example_table ''jetconf'' ?s ''{}'' 1
     = (Some (KeyError '':path''), ?s\<lparr>reqs_waiting_upload := []\<rparr>)"
    by blast
  then have c3: "http_handle_upload example_table ''jetconf'' ?s ''{}'' 1
     = (Some (KeyError '':path''), \<lparr>reqs_waiting_upload = [], effects = []\<rparr>)"
    by simp
  have "dict_getitem (OrderedDict [('':path'', ''/restconf'')]) '':method'' = None"
    by (simp add: OrderedDict_def dict_getitem_def)
  with R [of "[('':path'', ''/restconf'')]" example_table "''jetconf''" ?s1 1]
  have "handle_event example_table ''jetconf'' ?s1
          (RequestReceived 1 [('':path'', ''/restconf'')])
     = (Some (KeyError '':method''), ?s1)"
    by blast
  moreover have "data_received example_table ''jetconf'' H2Protocol_init
      [RemoteSettingsChanged] = (None, ?s1)"
    by (simp add: data_received_def handle_event_def emit_def H2Protocol_init_def)
  ultimately have "data_received example_table ''jetconf'' H2Protocol_init
       ([RemoteSettingsChanged] @ RequestReceived 1 [('':path'', ''/restconf'')]
        # [RequestReceived 3 [('':method'', ''GET''), ('':path'', ''/restconf'')]])
     = (Some (KeyError '':method''), ?s1)"
    using R [of _ example_table "''jetconf''" H2Protocol_init _ _ _ _ _
        "[RemoteSettingsChanged]" ?s1 "RequestReceived 1 [('':path'', ''/restconf'')]"
        "KeyError '':method''" ?s1
        "[RequestReceived 3 [('':method'', ''GET''), ('':path'', ''/restconf'')]]"]
    by blast
  then have c4: "data_received example_table ''jetconf'' H2Protocol_init
       [RemoteSettingsChanged, RequestReceived 1 [('':path'', ''/restconf'')],
        RequestReceived 3 [('':method'', ''GET''), ('':path'', ''/restconf'')]]
     = (Some (KeyError '':method''), ?s1)"
    by simp
  from c1 c2 c3 c4 show ?thesis by blast
qed

lemma handle_get_delete_cases:
  "handle_get_delete tbl srv self hdrs sid =
     (case dict_getitem hdrs '':path'' of
        None \<Rightarrow> (Some (KeyError '':path''), self)
      | Some path \<Rightarrow>
          (case dict_getitem hdrs '':method'' of
             None \<Rightarrow> (Some (KeyError '':method''), self)
           | Some m \<Rightarrow>
               (None, case get_handler tbl m (takeWhile (\<lambda>x. x \<noteq> CHR ''?'') path) of
                        Some h \<Rightarrow> emit self [Call3 h sid hdrs]
                      | None \<Rightarrow> send_empty srv self sid ''400'' ''Bad Request'' True)))"
  by (simp add: handle_get_delete_def str_split_case split: option.splits)

lemma http_handle_upload_cases:
  "http_handle_upload tbl srv self data sid =
     (case dict_pop (reqs_waiting_upload self) sid of
        None \<Rightarrow> (None, self)
      | Some (hdrs, rest) \<Rightarrow>
          (case dict_getitem hdrs '':path'' of
             None \<Rightarrow> (Some (KeyError '':path''), self\<lparr>reqs_waiting_upload := rest\<rparr>)
           | Some path \<Rightarrow>
               (case dict_getitem hdrs '':method'' of
                  None \<Rightarrow> (Some (KeyError '':method''), self\<lparr>reqs_waiting_upload := rest\<rparr>)
                | Some m \<Rightarrow>
                    (None, case get_handler tbl m (takeWhile (\<lambda>x. x \<noteq> CHR ''?'') path) of
                             Some h \<Rightarrow> emit (self\<lparr>reqs_waiting_upload := rest\<rparr>)
                                         [Call4 h sid hdrs data]
                           | None \<Rightarrow> send_empty srv (self\<lparr>reqs_waiting_upload := rest\<rparr>) sid
                                       ''400'' ''Bad Request'' True))))"
  by (simp add: http_handle_upload_def str_split_case Let_def split: option.splits)

lemma query_path_lookup:
  "dict_getitem (dict_setitem hdrs '':path'' v) '':path'' = Some v"
  "dict_getitem (dict_setitem hdrs '':path'' v) '':method'' = dict_getitem hdrs '':method''"
  by (simp_all add: dict_getitem_setitem)

text \<open>
  Claim C4. Let \<open>hdrs'\<close> be the headers \<open>hdrs\<close> with the path \<open>p\<close> replaced by \<open>p\<close>,
  a question mark and any \<open>q\<close>. Then \<^verbatim>\<open>handle_get_delete\<close> on \<open>hdrs'\<close> and on \<open>hdrs\<close>
  raise alike, leave the same Pending Request map and have the same effects up to the
  headers handed to the handler: the same handler is called, or the same 400 is sent. The
  same holds for \<^verbatim>\<open>http_handle_upload\<close> when the Pending Request of the stream is
  \<open>hdrs'\<close> instead of \<open>hdrs\<close>. In both, the path given to \<^verbatim>\<open>get_handler\<close> is the part
  of the path before the first question mark.
\<close>

theorem query_string_ignored:
  assumes "dict_getitem hdrs '':path'' = Some p"
  shows
    "(let hdrs' = dict_setitem hdrs '':path'' (p @ ''?'' @ q);
          r = handle_get_delete tbl srv self hdrs sid;
          r' = handle_get_delete tbl srv self hdrs' sid
      in fst r' = fst r
         \<and> reqs_waiting_upload (snd r') = reqs_waiting_upload (snd r)
         \<and> map forget_headers (effects (snd r')) = map forget_headers (effects (snd r)))
     \<and> (let hdrs' = dict_setitem hdrs '':path'' (p @ ''?'' @ q);
            pending = dict_setitem (reqs_waiting_upload self) sid hdrs;
            pending' = dict_setitem (reqs_waiting_upload self) sid hdrs';
            r = http_handle_upload tbl srv (self\<lparr>reqs_waiting_upload := pending\<rparr>) data sid;
            r' = http_handle_upload tbl srv (self\<lparr>reqs_waiting_upload := pending'\<rparr>) data sid
        in fst r' = fst r
           \<and> reqs_waiting_upload (snd r') = reqs_waiting_upload (snd r)
           \<and> map forget_headers (effects (snd r')) = map forget_headers (effects (snd r)))"
proof -
  have tw: "takeWhile (\<lambda>x. x \<noteq> CHR ''?'') (p @ ''?'' @ q) = takeWhile (\<lambda>x. x \<noteq> CHR ''?'') p"
    using takeWhile_query [of "CHR ''?''" p q] by simp
  have get: ?thesis if "dict_getitem hdrs '':method'' = None"
    using that assms
    by (simp add: handle_get_delete_cases http_handle_upload_cases dict_pop_setitem
          query_path_lookup Let_def)
  have put: ?thesis if m: "dict_getitem hdrs '':method'' = Some m" for m
  proof (cases "get_handler tbl m (takeWhile (\<lambda>x. x \<noteq> CHR ''?'') p)")
    case None
    with m assms tw show ?thesis
      by (simp add: handle_get_delete_cases http_handle_upload_cases dict_pop_setitem
            query_path_lookup Let_def send_empty_def emit_def)
  next
    case (Some h)
    with m assms tw show ?thesis
      by (simp add: handle_get_delete_cases http_handle_upload_cases dict_pop_setitem
            query_path_lookup Let_def emit_def)
  qed
  from get put show ?thesis
    by (cases "dict_getitem hdrs '':method''") auto
qed

theorem query_string_ignored_witness:
  "map forget_headers (effects (snd (handle_get_delete example_table ''jetconf''
      H2Protocol_init [('':method'', ''GET''), ('':path'', ''/restconf?depth=1'')] 1)))
     = [Call3 1 1 []]
   \<and> map forget_headers (effects (snd (http_handle_upload example_table ''jetconf''
      \<lparr>reqs_waiting_upload = [(3, [('':method'', ''POST''), ('':path'', ''/data/x?a=b'')])],
       effects = []\<rparr> ''{}'' 3)))
     = [Call4 3 3 [] ''{}'']"
proof -
  let ?g = "[('':method'', ''GET''), ('':path'', ''/restconf'')]"
  let ?u = "[('':method'', ''POST''), ('':path'', ''/data/x'')]"
  let ?s = "\<lparr>reqs_waiting_upload = [], effects = []\<rparr> :: nat H2Protocol"
  have pg: "dict_getitem ?g '':path'' = Some ''/restconf''"
    and pu: "dict_getitem ?u '':path'' = Some ''/data/x''"
    by (simp_all add: dict_getitem_def)
  have sg: "dict_setitem ?g '':path'' (''/restconf'' @ ''?'' @ ''depth=1'')
              = [('':method'', ''GET''), ('':path'', ''/restconf?depth=1'')]"
    and su: "dict_setitem ?u '':path'' (''/data/x'' @ ''?'' @ ''a=b'')
              = [('':method'', ''POST''), ('':path'', ''/data/x?a=b'')]"
    by simp_all
  have rg: "map forget_headers (effects (snd (handle_get_delete example_table ''jetconf''
              H2Protocol_init ?g 1))) = [Call3 1 1 []]"
    by (simp add: handle_get_delete_cases dict_getitem_def get_handler_def
          example_table_handlers emit_def H2Protocol_init_def)
  have ru: "map forget_headers (effects (snd (http_handle_upload example_table ''jetconf''
              (?s\<lparr>reqs_waiting_upload := dict_setitem (reqs_waiting_upload ?s) 3 ?u\<rparr>)
              ''{}'' 3))) = [Call4 3 3 [] ''{}'']"
    by (simp add: http_handle_upload_cases dict_pop_def dict_getitem_def get_handler_def
          example_table_handlers emit_def)
  from query_string_ignored [OF pg, of "''depth=1''" example_table "''jetconf''"
      H2Protocol_init 1 "''{}''"] rg
  have c1: "map forget_headers (effects (snd (handle_get_delete example_table ''jetconf''
      H2Protocol_init [('':method'', ''GET''), ('':path'', ''/restconf?depth=1'')] 1)))
     = [Call3 1 1 []]"
    by (simp only: Let_def sg)
  from query_string_ignored [OF pu, of "''a=b''" example_table "''jetconf''"
      ?s 3 "''{}''"] ru
  have c2: "map forget_headers (effects (snd (http_handle_upload example_table ''jetconf''
      (?s\<lparr>reqs_waiting_upload := dict_setitem (reqs_waiting_upload ?s) 3
            [('':method'', ''POST''), ('':path'', ''/data/x?a=b'')]\<rparr>) ''{}'' 3)))
     = [Call4 3 3 [] ''{}'']"
    by (simp only: Let_def su)
  from c1 c2 show ?thesis by simp
qed

section \<open>The life of a connection\<close>

text \<open>A property of the events delivered so far and of the session that every handled
  event, every skipped event and every flush of the transport keeps, holds after any
  sequence of \<^verbatim>\<open>data_received\<close> calls.\<close>

lemma skip_events:
  assumes skip: "\<And>es s ev. Inv es s \<Longrightarrow> Q ev \<Longrightarrow> Inv (es @ [ev]) s"
  shows "Inv es s \<Longrightarrow> \<forall>ev\<in>set evs. Q ev \<Longrightarrow> Inv (es @ evs) s"
proof (induction evs arbitrary: es)
  case Nil
  then show ?case by simp
next
  case (Cons ev evs)
  from Cons.prems have "Inv (es @ [ev]) s" by (simp add: skip)
  with Cons.prems Cons.IH [of "es @ [ev]"] show ?case by simp
qed

lemma events_loop_invariant:
  assumes skip: "\<And>es s ev. Inv es s \<Longrightarrow> Q ev \<Longrightarrow> Inv (es @ [ev]) s"
    and step: "\<And>es s ev. Inv es s \<Longrightarrow> Q ev \<Longrightarrow> Inv (es @ [ev]) (snd (handle_event tbl srv s ev))"
  shows "Inv es s \<Longrightarrow> \<forall>ev\<in>set evs. Q ev \<Longrightarrow> Inv (es @ evs) (snd (events_loop tbl srv s evs))"
proof (induction evs arbitrary: es s)
  case Nil
  then show ?case by simp
next
  case (Cons ev evs)
  obtain r s1 where h: "handle_event tbl srv s ev = (r, s1)"
    by (cases "handle_event tbl srv s ev")
  from Cons.prems step [of es s ev] h have i1: "Inv (es @ [ev]) s1" by simp
  from Cons.prems have q: "\<forall>ev\<in>set evs. Q ev" by simp
  show ?case
  proof (cases r)
    case None
    with h Cons.IH [OF i1 q] show ?thesis by simp
  next
    case (Some e)
    from skip_events [of Inv Q, OF skip i1 q] have "Inv (es @ ev # evs) s1" by simp
    with h Some show ?thesis by simp
  qed
qed

lemma serve_invariant:
  assumes skip: "\<And>es s ev. Inv es s \<Longrightarrow> Q ev \<Longrightarrow> Inv (es @ [ev]) s"
    and step: "\<And>es s ev. Inv es s \<Longrightarrow> Q ev \<Longrightarrow> Inv (es @ [ev]) (snd (handle_event tbl srv s ev))"
    and flush: "\<And>es s. Inv es s \<Longrightarrow> Inv es (emit s [TransportWrite])"
  shows "Inv es s \<Longrightarrow> \<forall>ev\<in>set (concat chunks). Q ev
           \<Longrightarrow> Inv (es @ concat chunks) (serve k tbl srv s chunks)"
proof (induction chunks arbitrary: es s)
  case Nil
  then show ?case by simp
next
  case (Cons evs chunks)
  obtain r s1 where d: "data_received tbl srv s evs = (r, s1)"
    by (cases "data_received tbl srv s evs")
  from Cons.prems have q1: "\<forall>ev\<in>set evs. Q ev" and q2: "\<forall>ev\<in>set (concat chunks). Q ev"
    by simp_all
  from Cons.prems flush have "Inv es (emit s [TransportWrite])" by simp
  from events_loop_invariant [of Inv Q tbl srv, OF skip step this q1] d
  have i1: "Inv (es @ evs) s1" by (simp add: data_received_def)
  from Cons.IH [OF i1 q2]
  have go: "Inv (es @ concat (evs # chunks)) (serve k tbl srv s1 chunks)" by simp
  from skip_events [of Inv Q, OF skip i1 q2]
  have stop: "Inv (es @ concat (evs # chunks)) s1" by simp
  from d go stop show ?case by (cases r) auto
qed

subsection \<open>What one event can do\<close>

lemma send_empty_emit:
  "\<exists>hv body. send_empty srv s sid c m b = emit s [SendHeaders sid hv, SendData sid body True]"
  by (auto simp: send_empty_def Let_def)

lemma request_shape:
  assumes s'_def: "s' = snd (handle_event tbl srv s (RequestReceived x hs))"
  shows "s' = s
     \<or> (\<exists>h. s' = emit s [Call3 h x (OrderedDict hs)]
           \<and> \<not> is_upload_request_on x (RequestReceived x hs))
     \<or> (\<exists>hv body. s' = emit s [SendHeaders x hv, SendData x body True])
     \<or> (s' = s\<lparr>reqs_waiting_upload := dict_setitem (reqs_waiting_upload s) x (OrderedDict hs)\<rparr>
           \<and> is_upload_request_on x (RequestReceived x hs))
     \<or> (\<exists>msg. s' = emit s [Warn msg])"
proof (cases "dict_getitem (OrderedDict hs) '':method''")
  case None
  then show ?thesis by (simp add: s'_def handle_event_def)
next
  case (Some m)
  consider (read) "m = ''GET'' \<or> m = ''DELETE''" | (upload) "m = ''PUT'' \<or> m = ''POST''"
    | (other) "m \<noteq> ''GET''" "m \<noteq> ''DELETE''" "m \<noteq> ''PUT''" "m \<noteq> ''POST''"
    by blast
  then show ?thesis
  proof cases
    case read
    then have ne: "m \<noteq> ''PUT''" "m \<noteq> ''POST''" by auto
    have h: "s' = snd (handle_get_delete tbl srv s (OrderedDict hs) x)"
      using Some read by (simp add: s'_def handle_event_get_delete [of hs m])
    show ?thesis
    proof (cases "dict_getitem (OrderedDict hs) '':path''")
      case None
      with h show ?thesis by (simp add: handle_get_delete_cases)
    next
      case p: (Some path)
      show ?thesis
      proof (cases "get_handler tbl m (takeWhile (\<lambda>x. x \<noteq> CHR ''?'') path)")
        case None
        with h p Some have "s' = send_empty srv s x ''400'' ''Bad Request'' True"
          by (simp add: handle_get_delete_cases)
        with send_empty_emit [of srv s x] show ?thesis by metis
      next
        case g: (Some hh)
        with h p Some have "s' = emit s [Call3 hh x (OrderedDict hs)]"
          by (simp add: handle_get_delete_cases)
        with Some ne show ?thesis by auto
      qed
    qed
  next
    case upload
    with Some have "s' = s\<lparr>reqs_waiting_upload :=
        dict_setitem (reqs_waiting_upload s) x (OrderedDict hs)\<rparr>"
      by (simp add: s'_def handle_event_put_post [of hs m])
    with Some upload show ?thesis by auto
  next
    case other
    with Some have "\<exists>msg. s' = emit s [Warn msg]"
      by (auto simp: s'_def handle_event_def)
    then show ?thesis by blast
  qed
qed

lemma data_shape:
  assumes s'_def: "s' = snd (handle_event tbl srv s (DataReceived x d))"
    and rest_def: "rest = filter (\<lambda>e. fst e \<noteq> x) (reqs_waiting_upload s)"
  shows "(s' = s \<and> map_of (reqs_waiting_upload s) x = None)
     \<or> (\<exists>hdrs. map_of (reqs_waiting_upload s) x = Some hdrs
          \<and> (s' = s\<lparr>reqs_waiting_upload := rest\<rparr>
              \<or> (\<exists>h. s' = emit (s\<lparr>reqs_waiting_upload := rest\<rparr>) [Call4 h x hdrs d])
              \<or> (\<exists>hv body. s' = emit (s\<lparr>reqs_waiting_upload := rest\<rparr>)
                                    [SendHeaders x hv, SendData x body True])))"
proof (cases "map_of (reqs_waiting_upload s) x")
  case None
  then show ?thesis
    by (simp add: s'_def handle_event_def http_handle_upload_cases dict_pop_def)
next
  case (Some hdrs)
  then have pop: "dict_pop (reqs_waiting_upload s) x = Some (hdrs, rest)"
    by (simp add: dict_pop_def rest_def)
  have h: "s' = snd (http_handle_upload tbl srv s d x)"
    by (simp add: s'_def handle_event_def)
  let ?s0 = "s\<lparr>reqs_waiting_upload := rest\<rparr>"
  have "s' = ?s0 \<or> (\<exists>h. s' = emit ?s0 [Call4 h x hdrs d])
          \<or> s' = send_empty srv ?s0 x ''400'' ''Bad Request'' True"
    using h pop by (auto simp: http_handle_upload_cases split: option.splits)
  with send_empty_emit [of srv ?s0 x] Some show ?thesis by metis
qed

lemma calls_on_simps:
  "calls_on sid (emit s es) = calls_on sid s + length (filter (is_call_on sid) es)"
  "calls_on sid (s\<lparr>reqs_waiting_upload := r\<rparr>) = calls_on sid s"
  by (simp_all add: calls_on_def emit_def)

lemma pending_on_simps:
  "pending_on sid (emit s es) = pending_on sid s"
  "pending_on sid (s\<lparr>reqs_waiting_upload := r\<rparr>) = length (filter (\<lambda>e. fst e = sid) r)"
  by (simp_all add: pending_on_def emit_def)

lemma count_dict_setitem:
  "length (filter (\<lambda>e. fst e = k) (dict_setitem d k' v))
     = (if k = k' \<and> map_of d k = None then Suc (length (filter (\<lambda>e. fst e = k) d))
        else length (filter (\<lambda>e. fst e = k) d))"
  by (induction d) auto

lemma count_filter_key:
  "length (filter (\<lambda>e. fst e \<noteq> k' \<and> fst e = k) d)
     = (if k = k' then 0 else length (filter (\<lambda>e. fst e = k) d))"
  by (induction d) auto

lemma count_positive:
  "map_of d k = Some v \<Longrightarrow> Suc 0 \<le> length (filter (\<lambda>e. fst e = k) d)"
  by (induction d) (auto split: if_splits)

lemma step_budget:
  "calls_on sid (snd (handle_event tbl srv s ev)) + pending_on sid (snd (handle_event tbl srv s ev))
     \<le> calls_on sid s + pending_on sid s + (if is_request_on sid ev then 1 else 0)"
proof (cases ev)
  case (RequestReceived x hs)
  from request_shape [OF refl, of tbl srv s x hs] show ?thesis
    unfolding RequestReceived
    by (elim disjE exE conjE)
      (simp_all add: calls_on_simps pending_on_simps count_dict_setitem pending_on_def [of sid s])
next
  case (DataReceived x d)
  from data_shape [OF refl refl, of tbl srv s x d] show ?thesis
    unfolding DataReceived
    by (elim disjE exE conjE)
      (auto simp: calls_on_simps pending_on_simps count_filter_key pending_on_def [of sid s]
         dest: count_positive)
qed (simp_all add: handle_event_def calls_on_simps pending_on_simps)


lemma step_body:
  assumes "is_request_on sid ev \<longrightarrow> is_upload_request_on sid ev"
  shows "calls_on sid (snd (handle_event tbl srv s ev))
           \<le> calls_on sid s + (if is_data_on sid ev then 1 else 0)"
proof (cases ev)
  case (RequestReceived x hs)
  from request_shape [OF refl, of tbl srv s x hs] assms show ?thesis
    unfolding RequestReceived
    by (elim disjE exE conjE) (auto simp: calls_on_simps)
next
  case (DataReceived x d)
  from data_shape [OF refl refl, of tbl srv s x d] show ?thesis
    unfolding DataReceived
    by (elim disjE exE conjE) (auto simp: calls_on_simps)
qed (simp_all add: handle_event_def calls_on_simps)

lemma header_then_body_snoc:
  "header_then_body sid (es @ [ev]) =
     (header_then_body sid es \<or> (list_ex (is_upload_request_on sid) es \<and> is_data_on sid ev))"
  by (induction es) (auto simp: list_ex_iff elim: is_upload_request_on.elims)

lemma step_order:
  assumes q: "is_request_on sid ev \<longrightarrow> is_upload_request_on sid ev"
    and c: "0 < calls_on sid s \<longrightarrow> header_then_body sid es"
    and p: "0 < pending_on sid s \<longrightarrow> list_ex (is_upload_request_on sid) es"
  shows "(0 < calls_on sid (snd (handle_event tbl srv s ev))
            \<longrightarrow> header_then_body sid (es @ [ev]))
       \<and> (0 < pending_on sid (snd (handle_event tbl srv s ev))
            \<longrightarrow> list_ex (is_upload_request_on sid) (es @ [ev]))"
proof (cases ev)
  case (RequestReceived x hs)
  from request_shape [OF refl, of tbl srv s x hs] q c p show ?thesis
    unfolding RequestReceived
    by (elim disjE exE conjE)
      (auto simp: calls_on_simps pending_on_simps header_then_body_snoc count_dict_setitem
         pending_on_def [of sid s] split: if_splits)
next
  case (DataReceived x d)
  from data_shape [OF refl refl, of tbl srv s x d] c p show ?thesis
    unfolding DataReceived
    by (elim disjE exE conjE)
      (auto simp: calls_on_simps pending_on_simps header_then_body_snoc count_filter_key
         pending_on_def [of sid s] dest: count_positive split: if_splits)
next
  case RemoteSettingsChanged
  with c p show ?thesis
    by (simp add: handle_event_def calls_on_simps pending_on_simps header_then_body_snoc)
next
  case OtherEvent
  with c p show ?thesis
    by (simp add: handle_event_def header_then_body_snoc)
qed

lemma step_distinct:
  assumes "distinct (map fst (reqs_waiting_upload s))"
  shows "distinct (map fst (reqs_waiting_upload (snd (handle_event tbl srv s ev))))"
proof (cases ev)
  case (RequestReceived x hs)
  from request_shape [OF refl, of tbl srv s x hs] assms show ?thesis
    unfolding RequestReceived
    by (elim disjE exE conjE) (auto simp: emit_def distinct_dict_setitem)
next
  case (DataReceived x d)
  from data_shape [OF refl refl, of tbl srv s x d] assms show ?thesis
    unfolding DataReceived
    by (elim disjE exE conjE) (auto simp: emit_def distinct_keys_filter)
qed (simp_all add: handle_event_def emit_def assms)

lemma distinct_count:
  "distinct (map fst d) \<Longrightarrow> length (filter (\<lambda>e. fst e = k) d) \<le> 1"
  by (induction d) (auto simp: filter_empty_conv image_iff)


lemma init_counts:
  "calls_on sid H2Protocol_init = 0" "pending_on sid H2Protocol_init = 0"
  by (simp_all add: calls_on_def pending_on_def H2Protocol_init_def)

lemma serve_budget:
  "calls_on sid (serve k tbl srv H2Protocol_init chunks)
     + pending_on sid (serve k tbl srv H2Protocol_init chunks)
     \<le> length (filter (is_request_on sid) (concat chunks))"
proof -
  let ?Inv = "\<lambda>es s. calls_on sid s + pending_on sid s \<le> length (filter (is_request_on sid) es)"
  have "?Inv ([] @ concat chunks) (serve k tbl srv H2Protocol_init chunks)"
  proof (rule serve_invariant [of ?Inv "\<lambda>ev. True"])
    fix es and s :: "'a H2Protocol" and ev
    assume "?Inv es s"
    then show "?Inv (es @ [ev]) s" by simp
  next
    fix es and s :: "'a H2Protocol" and ev
    assume "?Inv es s"
    with step_budget [of sid tbl srv s ev]
    show "?Inv (es @ [ev]) (snd (handle_event tbl srv s ev))" by (simp split: if_splits)
  next
    fix es and s :: "'a H2Protocol"
    assume "?Inv es s"
    then show "?Inv es (emit s [TransportWrite])"
      by (simp add: calls_on_simps pending_on_simps)
  next
    show "?Inv [] H2Protocol_init" by (simp add: init_counts)
  qed simp
  then show ?thesis by simp
qed

lemma serve_body:
  assumes "\<forall>ev\<in>set (concat chunks). is_request_on sid ev \<longrightarrow> is_upload_request_on sid ev"
  shows "calls_on sid (serve k tbl srv H2Protocol_init chunks)
           \<le> length (filter (is_data_on sid) (concat chunks))"
proof -
  let ?Inv = "\<lambda>es s. calls_on sid s \<le> length (filter (is_data_on sid) es)"
  let ?Q = "\<lambda>ev. is_request_on sid ev \<longrightarrow> is_upload_request_on sid ev"
  have "?Inv ([] @ concat chunks) (serve k tbl srv H2Protocol_init chunks)"
  proof (rule serve_invariant [of ?Inv ?Q])
    fix es and s :: "'a H2Protocol" and ev
    assume "?Inv es s"
    then show "?Inv (es @ [ev]) s" by simp
  next
    fix es and s :: "'a H2Protocol" and ev
    assume "?Inv es s" and "?Q ev"
    with step_body [of sid ev tbl srv s]
    show "?Inv (es @ [ev]) (snd (handle_event tbl srv s ev))" by (simp split: if_splits)
  next
    fix es and s :: "'a H2Protocol"
    assume "?Inv es s"
    then show "?Inv es (emit s [TransportWrite])"
      by (simp add: calls_on_simps)
  next
    show "?Inv [] H2Protocol_init" by (simp add: init_counts)
  next
    from assms show "\<forall>ev\<in>set (concat chunks). ?Q ev" .
  qed
  then show ?thesis by simp
qed

lemma serve_order:
  assumes "\<forall>ev\<in>set (concat chunks). is_request_on sid ev \<longrightarrow> is_upload_request_on sid ev"
  shows "0 < calls_on sid (serve k tbl srv H2Protocol_init chunks)
           \<longrightarrow> header_then_body sid (concat chunks)"
proof -
  let ?Inv = "\<lambda>es s. (0 < calls_on sid s \<longrightarrow> header_then_body sid es)
                     \<and> (0 < pending_on sid s \<longrightarrow> list_ex (is_upload_request_on sid) es)"
  let ?Q = "\<lambda>ev. is_request_on sid ev \<longrightarrow> is_upload_request_on sid ev"
  have "?Inv ([] @ concat chunks) (serve k tbl srv H2Protocol_init chunks)"
  proof (rule serve_invariant [of ?Inv ?Q])
    fix es and s :: "'a H2Protocol" and ev
    assume "?Inv es s"
    then show "?Inv (es @ [ev]) s" by (simp add: header_then_body_snoc)
  next
    fix es and s :: "'a H2Protocol" and ev
    assume inv: "?Inv es s" and q: "?Q ev"
    from inv have c: "0 < calls_on sid s \<longrightarrow> header_then_body sid es"
      and p: "0 < pending_on sid s \<longrightarrow> list_ex (is_upload_request_on sid) es"
      by simp_all
    from step_order [OF q c p]
    show "?Inv (es @ [ev]) (snd (handle_event tbl srv s ev))" .
  next
    fix es and s :: "'a H2Protocol"
    assume "?Inv es s"
    then show "?Inv es (emit s [TransportWrite])"
      by (simp add: calls_on_simps pending_on_simps)
  next
    show "?Inv [] H2Protocol_init" by (simp add: init_counts)
  next
    from assms show "\<forall>ev\<in>set (concat chunks). ?Q ev" .
  qed
  then show ?thesis by simp
qed

lemma serve_distinct:
  "distinct (map fst (reqs_waiting_upload (serve k tbl srv H2Protocol_init chunks)))"
proof -
  let ?Inv = "\<lambda>(es :: event list) (s :: 'a H2Protocol). distinct (map fst (reqs_waiting_upload s))"
  have "?Inv ([] @ concat chunks) (serve k tbl srv H2Protocol_init chunks)"
  proof (rule serve_invariant [of ?Inv "\<lambda>ev. True"])
    fix es :: "event list" and s :: "'a H2Protocol" and ev :: event
    assume "?Inv es s"
    then show "?Inv (es @ [ev]) (snd (handle_event tbl srv s ev))"
      by (rule step_distinct)
  next
    fix es :: "event list" and s :: "'a H2Protocol"
    assume "?Inv es s"
    then show "?Inv es (emit s [TransportWrite])"
      by (simp add: emit_def)
  next
    show "?Inv [] H2Protocol_init" by (simp add: H2Protocol_init_def)
  qed simp_all
  then show ?thesis by simp
qed

lemma keys_dict_setitem_present:
  "map_of d k = Some v \<Longrightarrow> map fst (dict_setitem d k v') = map fst d"
  by (induction d) (auto split: if_splits)

lemma upload_request_stores:
  assumes "is_upload_request_on sid ev"
  shows "\<exists>hs. ev = RequestReceived sid hs
           \<and> handle_event tbl srv s ev =
               (None, s\<lparr>reqs_waiting_upload :=
                          dict_setitem (reqs_waiting_upload s) sid (OrderedDict hs)\<rparr>)"
proof (cases ev)
  case (RequestReceived x hs)
  with assms have x: "x = sid"
    and m: "dict_getitem (OrderedDict hs) '':method'' = Some ''PUT''
            \<or> dict_getitem (OrderedDict hs) '':method'' = Some ''POST''"
    by simp_all
  from m have "handle_event tbl srv s (RequestReceived sid hs) =
     (None, s\<lparr>reqs_waiting_upload :=
                dict_setitem (reqs_waiting_upload s) sid (OrderedDict hs)\<rparr>)"
    using handle_event_put_post [of hs "''PUT''" tbl srv s sid]
      handle_event_put_post [of hs "''POST''" tbl srv s sid]
    by blast
  with RequestReceived x show ?thesis by simp
qed (use assms in simp_all)

text \<open>
  Claim C2. Take any sequence of \<^verbatim>\<open>data_received\<close> calls on a fresh session, whether
  or not the connection survives an exception, and a stream whose request-received events
  all carry PUT or POST. The handler calls on that stream are at most as many as its
  request-received events (one call at most for each request, so at most one call when
  the stream has its one request-received event) and at most as many as its body-data
  events. If there is a call on the stream, then the events contain a PUT or
  POST request-received event of the stream and, after it, a body-data event of the
  stream; so when no body-data event follows the headers, no handler is called for the
  stream. The request-received event itself stores the headers and has no effect: no
  handler is called and nothing is sent while it is handled.
\<close>

theorem upload_dispatched_after_body:
  assumes "\<forall>ev\<in>set (concat chunks). is_request_on sid ev \<longrightarrow> is_upload_request_on sid ev"
  shows
    "calls_on sid (serve k tbl srv H2Protocol_init chunks)
       \<le> length (filter (is_request_on sid) (concat chunks))
     \<and> (length (filter (is_request_on sid) (concat chunks)) = 1
          \<longrightarrow> calls_on sid (serve k tbl srv H2Protocol_init chunks) \<le> 1)
     \<and> calls_on sid (serve k tbl srv H2Protocol_init chunks)
       \<le> length (filter (is_data_on sid) (concat chunks))
     \<and> (0 < calls_on sid (serve k tbl srv H2Protocol_init chunks)
          \<longrightarrow> header_then_body sid (concat chunks))
     \<and> ((\<forall>ev\<in>set (concat chunks). \<not> is_data_on sid ev)
          \<longrightarrow> calls_on sid (serve k tbl srv H2Protocol_init chunks) = 0)
     \<and> (\<forall>ev\<in>set (concat chunks). \<forall>s :: 'h H2Protocol. is_upload_request_on sid ev
          \<longrightarrow> fst (handle_event tbl srv s ev) = None
              \<and> effects (snd (handle_event tbl srv s ev)) = effects s)"
proof (intro conjI impI ballI allI)
  let ?s = "serve k tbl srv H2Protocol_init chunks"
  from serve_budget [of sid k tbl srv chunks]
  show a: "calls_on sid ?s \<le> length (filter (is_request_on sid) (concat chunks))"
    by simp
  {
    assume "length (filter (is_request_on sid) (concat chunks)) = 1"
    with a show "calls_on sid ?s \<le> 1" by simp
  }
  from assms show b: "calls_on sid ?s \<le> length (filter (is_data_on sid) (concat chunks))"
    by (rule serve_body)
  {
    assume "0 < calls_on sid ?s"
    with serve_order [OF assms, of k tbl srv]
    show "header_then_body sid (concat chunks)" by blast
  }
  {
    assume "\<forall>ev\<in>set (concat chunks). \<not> is_data_on sid ev"
    then have "filter (is_data_on sid) (concat chunks) = []"
      by (simp only: filter_empty_conv)
    with b show "calls_on sid ?s = 0" by simp
  }
  {
    fix ev and s :: "'h H2Protocol"
    assume "is_upload_request_on sid ev"
    from upload_request_stores [OF this, of tbl srv s]
    show "fst (handle_event tbl srv s ev) = None"
      and "effects (snd (handle_event tbl srv s ev)) = effects s"
      by auto
  }
qed

theorem upload_dispatched_after_body_witness:
  "serve True example_table ''jetconf'' H2Protocol_init
     [[RequestReceived 1 [('':method'', ''POST''), ('':path'', ''/data/x'')]],
      [DataReceived 1 ''{}''], [DataReceived 1 ''{}'']]
     = \<lparr>reqs_waiting_upload = [],
        effects = [TransportWrite, TransportWrite,
                   Call4 3 1 [('':method'', ''POST''), ('':path'', ''/data/x'')] ''{}'',
                   TransportWrite]\<rparr>
   \<and> calls_on 1 (serve True example_table ''jetconf'' H2Protocol_init
        [[RequestReceived 1 [('':method'', ''POST''), ('':path'', ''/data/x'')]],
         [DataReceived 1 ''{}''], [DataReceived 1 ''{}'']]) \<le> 1
   \<and> header_then_body 1
        (concat [[RequestReceived 1 [('':method'', ''POST''), ('':path'', ''/data/x'')]],
                 [DataReceived 1 ''{}''], [DataReceived 1 ''{}'']])
   \<and> calls_on 1 (serve False example_table ''jetconf'' H2Protocol_init
        [[RequestReceived 1 [('':method'', ''PUT''), ('':path'', ''/data/x'')]],
         [RequestReceived 3 [('':method'', ''GET''), ('':path'', ''/restconf'')]]]) = 0"
proof -
  let ?c1 = "[[RequestReceived 1 [('':method'', ''POST''), ('':path'', ''/data/x'')]],
              [DataReceived 1 ''{}''], [DataReceived 1 ''{}'']]"
  let ?c2 = "[[RequestReceived 1 [('':method'', ''PUT''), ('':path'', ''/data/x'')]],
              [RequestReceived 3 [('':method'', ''GET''), ('':path'', ''/restconf'')]]]"
  have run: "serve True example_table ''jetconf'' H2Protocol_init ?c1
     = \<lparr>reqs_waiting_upload = [],
        effects = [TransportWrite, TransportWrite,
                   Call4 3 1 [('':method'', ''POST''), ('':path'', ''/data/x'')] ''{}'',
                   TransportWrite]\<rparr>"
    by (simp add: data_received_def handle_event_def OrderedDict_def dict_getitem_def
          http_handle_upload_cases dict_pop_def get_handler_def example_table_handlers
          emit_def H2Protocol_init_def)
  have pre1: "\<forall>ev\<in>set (concat ?c1). is_request_on 1 ev \<longrightarrow> is_upload_request_on 1 ev"
    by (simp add: OrderedDict_def dict_getitem_def)
  have pre2: "\<forall>ev\<in>set (concat ?c2). is_request_on 1 ev \<longrightarrow> is_upload_request_on 1 ev"
    by (simp add: OrderedDict_def dict_getitem_def)
  have nodata: "\<forall>ev\<in>set (concat ?c2). \<not> is_data_on 1 ev"
    by simp
  have called: "0 < calls_on 1 (serve True example_table ''jetconf'' H2Protocol_init ?c1)"
    unfolding run by (simp add: calls_on_def)
  note t1 = upload_dispatched_after_body [OF pre1, of True example_table "''jetconf''"]
  note t2 = upload_dispatched_after_body [OF pre2, of False example_table "''jetconf''"]
  from t1 have "calls_on 1 (serve True example_table ''jetconf'' H2Protocol_init ?c1)
                  \<le> length (filter (is_request_on 1) (concat ?c1))"
    by blast
  then have once: "calls_on 1 (serve True example_table ''jetconf'' H2Protocol_init ?c1) \<le> 1"
    by simp
  from t1 called have order: "header_then_body 1 (concat ?c1)"
    by blast
  from t2 nodata
  have never: "calls_on 1 (serve False example_table ''jetconf'' H2Protocol_init ?c2) = 0"
    by blast
  from run once order never show ?thesis by blast
qed

text \<open>
  Claim C10. The keys of the Pending Request map stay pairwise distinct under every
  event, so after any sequence of \<^verbatim>\<open>data_received\<close> calls on a fresh session a stream
  id has at most one Pending Request. A PUT or POST request-received event for a stream
  id that already has a Pending Request raises nothing, records no effect (no dispatch
  and no response), keeps the keys of the map and stores the new headers under the stream
  id. The session it leaves is the same whatever the replaced headers were, so nothing
  the session does later depends on them.
\<close>

theorem pending_request_replaced:
  "(distinct (map fst (reqs_waiting_upload self))
      \<longrightarrow> distinct (map fst (reqs_waiting_upload (snd (handle_event tbl srv self ev)))))
   \<and> distinct (map fst (reqs_waiting_upload (serve k tbl srv H2Protocol_init chunks)))
   \<and> pending_on sid (serve k tbl srv H2Protocol_init chunks) \<le> 1
   \<and> (is_upload_request_on sid (RequestReceived sid hs)
        \<and> dict_getitem (reqs_waiting_upload self) sid = Some old \<longrightarrow>
      handle_event tbl srv self (RequestReceived sid hs)
        = (None, self\<lparr>reqs_waiting_upload :=
                         dict_setitem (reqs_waiting_upload self) sid (OrderedDict hs)\<rparr>)
      \<and> dict_getitem (dict_setitem (reqs_waiting_upload self) sid (OrderedDict hs)) sid
          = Some (OrderedDict hs)
      \<and> map fst (dict_setitem (reqs_waiting_upload self) sid (OrderedDict hs))
          = map fst (reqs_waiting_upload self)
      \<and> (\<forall>old'. handle_event tbl srv
                    (self\<lparr>reqs_waiting_upload :=
                            dict_setitem (reqs_waiting_upload self) sid old'\<rparr>)
                    (RequestReceived sid hs)
                 = handle_event tbl srv self (RequestReceived sid hs)))"
proof (intro conjI impI allI)
  assume "distinct (map fst (reqs_waiting_upload self))"
  then show "distinct (map fst (reqs_waiting_upload (snd (handle_event tbl srv self ev))))"
    by (rule step_distinct)
next
  show d: "distinct (map fst (reqs_waiting_upload (serve k tbl srv H2Protocol_init chunks)))"
    by (rule serve_distinct)
  from distinct_count [OF d, of sid]
  show "pending_on sid (serve k tbl srv H2Protocol_init chunks) \<le> 1"
    by (simp add: pending_on_def)
next
  assume a: "is_upload_request_on sid (RequestReceived sid hs)
        \<and> dict_getitem (reqs_waiting_upload self) sid = Some old"
  from a upload_request_stores [of sid "RequestReceived sid hs" tbl srv self]
  show st: "handle_event tbl srv self (RequestReceived sid hs)
        = (None, self\<lparr>reqs_waiting_upload :=
                         dict_setitem (reqs_waiting_upload self) sid (OrderedDict hs)\<rparr>)"
    by auto
  show "dict_getitem (dict_setitem (reqs_waiting_upload self) sid (OrderedDict hs)) sid
          = Some (OrderedDict hs)"
    by (simp add: dict_getitem_setitem)
  from a show "map fst (dict_setitem (reqs_waiting_upload self) sid (OrderedDict hs))
          = map fst (reqs_waiting_upload self)"
    by (simp add: dict_getitem_def keys_dict_setitem_present)
  fix old'
  let ?self' = "self\<lparr>reqs_waiting_upload := dict_setitem (reqs_waiting_upload self) sid old'\<rparr>"
  from a upload_request_stores [of sid "RequestReceived sid hs" tbl srv ?self']
  have "handle_event tbl srv ?self' (RequestReceived sid hs)
        = (None, ?self'\<lparr>reqs_waiting_upload :=
                         dict_setitem (reqs_waiting_upload ?self') sid (OrderedDict hs)\<rparr>)"
    by auto
  with st show "handle_event tbl srv ?self' (RequestReceived sid hs)
                 = handle_event tbl srv self (RequestReceived sid hs)"
    by (simp add: dict_setitem_twice)
qed

theorem pending_request_replaced_witness:
  "handle_event example_table ''jetconf''
     \<lparr>reqs_waiting_upload = [(1, [('':method'', ''PUT''), ('':path'', ''/data/old'')]),
                              (3, [('':method'', ''POST''), ('':path'', ''/data/y'')])],
      effects = [TransportWrite]\<rparr>
     (RequestReceived 1 [('':method'', ''POST''), ('':path'', ''/data/new'')])
   = (None,
      \<lparr>reqs_waiting_upload = [(1, [('':method'', ''POST''), ('':path'', ''/data/new'')]),
                               (3, [('':method'', ''POST''), ('':path'', ''/data/y'')])],
       effects = [TransportWrite]\<rparr>)"
proof -
  let ?old = "[('':method'', ''PUT''), ('':path'', ''/data/old'')]"
  let ?new = "[('':method'', ''POST''), ('':path'', ''/data/new'')]"
  let ?s = "\<lparr>reqs_waiting_upload = [(1::int, ?old),
                 (3, [('':method'', ''POST''), ('':path'', ''/data/y'')])],
             effects = [TransportWrite :: nat effect]\<rparr>"
  have od: "OrderedDict ?new = ?new"
    by (simp add: OrderedDict_def)
  have pre: "is_upload_request_on 1 (RequestReceived 1 ?new)
        \<and> dict_getitem (reqs_waiting_upload ?s) 1 = Some ?old"
    by (simp add: od dict_getitem_def)
  with pending_request_replaced [of ?s example_table "''jetconf''" _ _ _ 1 ?new ?old]
  have "handle_event example_table ''jetconf'' ?s (RequestReceived 1 ?new)
        = (None, ?s\<lparr>reqs_waiting_upload :=
                       dict_setitem (reqs_waiting_upload ?s) 1 (OrderedDict ?new)\<rparr>)"
    by blast
  then show ?thesis by (simp add: od)
qed

end
